theory Spec2Isabelle
  imports Main
begin

section \<open>Variables and the tensor operations of the LSTM link\<close>

text \<open>
  A \<^verbatim>\<open>chainer.Variable\<close> holding a two-dimensional array is modelled by its rows
  (\<open>len(v.data)\<close> is \<open>length (data v)\<close>), its element type and the array that backs
  it: a \<^verbatim>\<open>numpy\<close> array on the host, or a \<^verbatim>\<open>cupy\<close> array on the accelerator of the
  given number. The elements are of an arbitrary type \<open>'a\<close>: nothing below computes with
  them. The bookkeeping of the automatic differentiation (the \<^verbatim>\<open>volatile\<close> flag, the
  creator) is not part of the model. Every exception is a value of type \<open>error\<close>.
\<close>

datatype error = InvalidType | RuntimeFailure

datatype array_module = Numpy | Cupy nat

datatype dtype = Float16 | Float32 | Float64

record 'a variable =
  data :: "'a list list"
  dtype :: dtype
  arr :: array_module

text \<open>
  \<^verbatim>\<open>xp.zeros((n, m), dtype=d)\<close>, wrapped in a variable. The call names no device: the
  array is where the array module \<open>xp\<close> allocates, which for \<^verbatim>\<open>cupy\<close> is the current
  device of the process.
\<close>

definition zeros :: "array_module \<Rightarrow> nat \<Rightarrow> nat \<Rightarrow> dtype \<Rightarrow> ('a::zero) variable" where
  "zeros m n k d = \<lparr>data = replicate n (replicate k 0), dtype = d, arr = m\<rparr>"

text \<open>
  Modelled from the spec: \<^verbatim>\<open>split_axis.split_axis(v, [batch], axis=0)\<close> is not among the
  sources. It splits along the batch axis into the first \<open>batch\<close> rows and the remaining rows.
\<close>

definition split_axis :: "'a variable \<Rightarrow> nat \<Rightarrow> 'a variable \<times> 'a variable" where
  "split_axis v batch = (v\<lparr>data := take batch (data v)\<rparr>, v\<lparr>data := drop batch (data v)\<rparr>)"

text \<open>
  Modelled from the spec: \<^verbatim>\<open>concat.concat([a, b], axis=0)\<close> is not among the sources. It
  concatenates along the batch axis, in that order; rows whose feature dimensions differ
  are a shape mismatch.
\<close>

definition concat_axis :: "'a variable \<Rightarrow> 'a variable \<Rightarrow> error + 'a variable" where
  "concat_axis a b =
     (if list_all (\<lambda>r. list_all (\<lambda>r'. length r = length r') (data b)) (data a)
      then Inr (a\<lparr>data := data a @ data b\<rparr>)
      else Inl InvalidType)"

text \<open>
  The collaborators that are not among the sources are parameters: the two child links
  \<^verbatim>\<open>self.upward\<close> and \<^verbatim>\<open>self.lateral\<close> with their weights fixed, the addition of two
  variables (\<^verbatim>\<open>+=\<close>) and the activation function \<^verbatim>\<open>lstm.lstm\<close>, which returns the
  pair of the new cell state and the new output. Each of them may raise.
\<close>

record 'a prims =
  upward :: "'a variable \<Rightarrow> error + 'a variable"
  lateral :: "'a variable \<Rightarrow> error + 'a variable"
  add :: "'a variable \<Rightarrow> 'a variable \<Rightarrow> error + 'a variable"
  lstm :: "'a variable \<Rightarrow> 'a variable \<Rightarrow> error + 'a variable \<times> 'a variable"

section \<open>The link and its operations\<close>

text \<open>
  The attributes of an \<^verbatim>\<open>LSTM\<close> object that its methods read and write: \<open>state_size\<close>,
  the states \<open>c\<close> and \<open>h\<close> (\<^verbatim>\<open>None\<close> or a variable) and the array module \<open>xp\<close> of the
  link, which is \<^verbatim>\<open>numpy\<close> or \<^verbatim>\<open>cupy\<close>; with \<^verbatim>\<open>cupy\<close> comes the current device of the
  process, on which it allocates.
\<close>

record 'a lstm_link =
  state_size :: nat
  c :: "'a variable option"
  h :: "'a variable option"
  xp :: array_module

definition reset_state :: "'a lstm_link \<Rightarrow> 'a lstm_link" where
  "reset_state s = s\<lparr>c := None, h := None\<rparr>"

text \<open>
  \<^verbatim>\<open>__init__(in_size, out_size)\<close>: the two projections are the parameters above, the link
  starts on the host, and the constructor ends with \<^verbatim>\<open>reset_state()\<close>.
\<close>

definition LSTM :: "nat \<Rightarrow> nat \<Rightarrow> 'a lstm_link" where
  "LSTM in_size out_size =
     reset_state \<lparr>state_size = out_size, c = None, h = None, xp = Numpy\<rparr>"

text \<open>
  Modelled from the spec: \<^verbatim>\<open>Variable.to_cpu\<close> and \<^verbatim>\<open>Variable.to_gpu\<close> are not among
  the sources. A transfer changes where the array is, and nothing else of the variable.
\<close>

definition var_to :: "array_module \<Rightarrow> 'a variable \<Rightarrow> 'a variable" where
  "var_to m v = v\<lparr>arr := m\<rparr>"

definition to_cpu :: "'a lstm_link \<Rightarrow> 'a lstm_link" where
  "to_cpu s = s\<lparr>xp := Numpy, c := map_option (var_to Numpy) (c s),
                  h := map_option (var_to Numpy) (h s)\<rparr>"

text \<open>
  \<^verbatim>\<open>to_gpu(device)\<close>, called while the current device of the process is \<open>cur\<close>: the
  array module of the link becomes \<^verbatim>\<open>cupy\<close>, and the states that are set move to the
  given device, or to the current one when the argument is \<^verbatim>\<open>None\<close>.
\<close>

definition to_gpu :: "nat \<Rightarrow> nat option \<Rightarrow> 'a lstm_link \<Rightarrow> 'a lstm_link" where
  "to_gpu cur device s =
     (let d = (case device of None \<Rightarrow> cur | Some i \<Rightarrow> i) in
      s\<lparr>xp := Cupy cur, c := map_option (var_to (Cupy d)) (c s),
        h := map_option (var_to (Cupy d)) (h s)\<rparr>)"

text \<open>
  \<^verbatim>\<open>__call__\<close>, lines 72 to 80: the input of the activation function and the rows of
  \<open>h\<close> set aside (\<^verbatim>\<open>h_rest\<close>). Nothing is assigned to the link here.
\<close>

definition lstm_in :: "'a prims \<Rightarrow> 'a lstm_link \<Rightarrow> 'a variable
    \<Rightarrow> error + 'a variable \<times> 'a variable option" where
  "lstm_in P s x =
     (let batch = length (data x) in
      case upward P x of
        Inl e \<Rightarrow> Inl e
      | Inr u \<Rightarrow>
         (case h s of
            None \<Rightarrow> Inr (u, None)
          | Some hv \<Rightarrow>
             if length (data hv) > batch then
               (let (h_update, h_rest) = split_axis hv batch in
                case lateral P h_update of
                  Inl e \<Rightarrow> Inl e
                | Inr l \<Rightarrow>
                   (case add P u l of
                      Inl e \<Rightarrow> Inl e
                    | Inr g \<Rightarrow> Inr (g, Some h_rest)))
             else
               (case lateral P hv of
                  Inl e \<Rightarrow> Inl e
                | Inr l \<Rightarrow>
                   (case add P u l of
                      Inl e \<Rightarrow> Inl e
                    | Inr g \<Rightarrow> Inr (g, None)))))"

text \<open>
  Lines 81 to 85: the cell state the activation function is applied to, which is \<open>self.c\<close>
  or, when that is \<^verbatim>\<open>None\<close>, the zeros that line 83 assigns to it.
\<close>

definition cell_in :: "('a::zero) lstm_link \<Rightarrow> 'a variable \<Rightarrow> 'a variable" where
  "cell_in s x =
     (case c s of
        None \<Rightarrow> zeros (xp s) (length (data x)) (state_size s) (dtype x)
      | Some cv \<Rightarrow> cv)"

text \<open>
  The whole of \<^verbatim>\<open>__call__\<close>. The result is the returned variable or the exception, and
  the link as the call leaves it: an exception of line 86 comes after the assignment of
  line 83, one of line 88 after the assignment of line 86.
\<close>

definition step :: "('a::zero) prims \<Rightarrow> 'a lstm_link \<Rightarrow> 'a variable
    \<Rightarrow> (error + 'a variable) \<times> 'a lstm_link" where
  "step P s x =
     (case lstm_in P s x of
        Inl e \<Rightarrow> (Inl e, s)
      | Inr (g, h_rest) \<Rightarrow>
         (let s1 = s\<lparr>c := Some (cell_in s x)\<rparr> in
          case lstm P (cell_in s x) g of
            Inl e \<Rightarrow> (Inl e, s1)
          | Inr (c_new, h_new) \<Rightarrow>
             (let s2 = s1\<lparr>c := Some c_new\<rparr> in
              case h_rest of
                None \<Rightarrow> (Inr h_new, s2\<lparr>h := Some h_new\<rparr>)
              | Some r \<Rightarrow>
                 (case concat_axis h_new r of
                    Inl e \<Rightarrow> (Inl e, s2)
                  | Inr hh \<Rightarrow> (Inr hh, s2\<lparr>h := Some hh\<rparr>)))))"

text \<open>
  Lines 72 to 86 alone: the pair of the new cell state and the freshly computed output,
  before \<^verbatim>\<open>h_rest\<close> is attached.
\<close>

definition gate :: "('a::zero) prims \<Rightarrow> 'a lstm_link \<Rightarrow> 'a variable
    \<Rightarrow> error + 'a variable \<times> 'a variable" where
  "gate P s x =
     (case lstm_in P s x of
        Inl e \<Rightarrow> Inl e
      | Inr (g, h_rest) \<Rightarrow> lstm P (cell_in s x) g)"

text \<open>A sequence of calls on the successive input batches: the link it leaves and what
  each call returned or raised.\<close>

fun exec :: "('a::zero) prims \<Rightarrow> 'a lstm_link \<Rightarrow> 'a variable list \<Rightarrow> 'a lstm_link" where
  "exec P s [] = s"
| "exec P s (x # xs) = exec P (snd (step P s x)) xs"

fun outputs :: "('a::zero) prims \<Rightarrow> 'a lstm_link \<Rightarrow> 'a variable list
    \<Rightarrow> (error + 'a variable) list" where
  "outputs P s [] = []"
| "outputs P s (x # xs) = fst (step P s x) # outputs P (snd (step P s x)) xs"

definition all_returned :: "('a::zero) prims \<Rightarrow> 'a lstm_link \<Rightarrow> 'a variable list \<Rightarrow> bool" where
  "all_returned P s xs = list_all (\<lambda>r. \<not> isl r) (outputs P s xs)"

text \<open>The rows of the stored output, none when \<open>h\<close> is \<^verbatim>\<open>None\<close>.\<close>

definition h_rows :: "'a lstm_link \<Rightarrow> 'a list list" where
  "h_rows s = (case h s of None \<Rightarrow> [] | Some hv \<Rightarrow> data hv)"

text \<open>
  In a run of \<open>xs\<close> from \<open>s\<close>: the rows of the stored output after call \<open>k\<close>, the rows
  of the output freshly computed by call \<open>k\<close>, and the batch size of call \<open>k\<close>
  (calls are counted from 0).
\<close>

definition stored_rows :: "('a::zero) prims \<Rightarrow> 'a lstm_link \<Rightarrow> 'a variable list \<Rightarrow> nat
    \<Rightarrow> 'a list list" where
  "stored_rows P s xs k = h_rows (exec P s (take (Suc k) xs))"

definition fresh_rows :: "('a::zero) prims \<Rightarrow> 'a lstm_link \<Rightarrow> 'a variable list \<Rightarrow> nat
    \<Rightarrow> 'a list list" where
  "fresh_rows P s xs k =
     (case gate P (exec P s (take k xs)) (xs ! k) of
        Inl e \<Rightarrow> []
      | Inr (c_new, h_new) \<Rightarrow> data h_new)"

definition batch_size :: "'a variable list \<Rightarrow> nat \<Rightarrow> nat" where
  "batch_size xs k = length (data (xs ! k))"

section \<open>Reachable links\<close>

text \<open>
  The links that the methods of the class produce: the constructor, \<^verbatim>\<open>reset_state\<close>,
  the two transfers and \<^verbatim>\<open>__call__\<close>, whether it returns or raises.
\<close>

inductive reach :: "('a::zero) prims \<Rightarrow> 'a lstm_link \<Rightarrow> bool" for P where
  reach_init: "reach P (LSTM n_in n_out)"
| reach_reset: "reach P s \<Longrightarrow> reach P (reset_state s)"
| reach_cpu: "reach P s \<Longrightarrow> reach P (to_cpu s)"
| reach_gpu: "reach P s \<Longrightarrow> reach P (to_gpu cur device s)"
| reach_step: "reach P s \<Longrightarrow> reach P (snd (step P s x))"

text \<open>The same with every \<^verbatim>\<open>__call__\<close> returning.\<close>

inductive reach_returning :: "('a::zero) prims \<Rightarrow> 'a lstm_link \<Rightarrow> bool" for P where
  ret_init: "reach_returning P (LSTM n_in n_out)"
| ret_reset: "reach_returning P s \<Longrightarrow> reach_returning P (reset_state s)"
| ret_cpu: "reach_returning P s \<Longrightarrow> reach_returning P (to_cpu s)"
| ret_gpu: "reach_returning P s \<Longrightarrow> reach_returning P (to_gpu cur device s)"
| ret_step: "reach_returning P s \<Longrightarrow> step P s x = (Inr out, s') \<Longrightarrow> reach_returning P s'"

section \<open>What the collaborators must provide\<close>

text \<open>
  Modelled from the spec: \<^verbatim>\<open>linear.Linear\<close>, the addition of variables and
  \<^verbatim>\<open>lstm.lstm\<close> are not among the sources. Section 4.1 of the specification gives the
  batch sizes that a call relies on: \<open>upward(x)\<close> has the rows of \<open>x\<close> (step 2), the sum
  has the rows of the pre-activation it is added to (step 3), and the new output of the
  activation has the rows of the gate input (step 5). Nothing is asked of the lateral
  projection, whose result only enters the sum, nor of the new cell state: its rows are
  what the activation makes them.
\<close>

definition keeps_batch :: "('a variable \<Rightarrow> error + 'a variable) \<Rightarrow> bool" where
  "keeps_batch f \<longleftrightarrow> (\<forall>x y. f x = Inr y \<longrightarrow> length (data y) = length (data x))"

definition sum_keeps_batch :: "('a variable \<Rightarrow> 'a variable \<Rightarrow> error + 'a variable) \<Rightarrow> bool" where
  "sum_keeps_batch f \<longleftrightarrow> (\<forall>u l g. f u l = Inr g \<longrightarrow> length (data g) = length (data u))"

definition output_keeps_batch ::
    "('a variable \<Rightarrow> 'a variable \<Rightarrow> error + 'a variable \<times> 'a variable) \<Rightarrow> bool" where
  "output_keeps_batch f \<longleftrightarrow>
     (\<forall>cv g c_new h_new. f cv g = Inr (c_new, h_new) \<longrightarrow>
        length (data h_new) = length (data g))"

definition shapes_ok :: "'a prims \<Rightarrow> bool" where
  "shapes_ok P \<longleftrightarrow>
     keeps_batch (upward P) \<and> sum_keeps_batch (add P) \<and> output_keeps_batch (lstm P)"

text \<open>
  Modelled from the spec: \<^verbatim>\<open>lstm.lstm\<close> is not among the sources. Its output for a gate
  input of \<open>B\<close> rows is computed from the first \<open>B\<close> rows of the cell state it is given
  (section 8, shrinking batch), so that cutting the cell state to these rows before the
  call changes neither the output nor whether the call raises.
\<close>

definition gate_reads_head ::
    "('a variable \<Rightarrow> 'a variable \<Rightarrow> error + 'a variable \<times> 'a variable) \<Rightarrow> bool" where
  "gate_reads_head f \<longleftrightarrow>
     (\<forall>cv g. map_sum id snd (f (fst (split_axis cv (length (data g)))) g) =
             map_sum id snd (f cv g))"

section \<open>An instance of the collaborators over the integers\<close>

text \<open>
  Small collaborators with integer elements, to run the link on concrete batches. A
  projection has its weights where the link has been moved to: it rejects a batch that is
  elsewhere and rows of the wrong width, and replaces a row by copies of its sum. The sum
  is elementwise and rejects operands of different shapes or in different places.
\<close>

definition toy_linear :: "array_module \<Rightarrow> nat \<Rightarrow> nat \<Rightarrow> int variable
    \<Rightarrow> error + int variable" where
  "toy_linear m n_in n_out x =
     (if arr x \<noteq> m then Inl RuntimeFailure
      else if list_all (\<lambda>r. length r = n_in) (data x)
      then Inr (x\<lparr>data := map (\<lambda>r. replicate n_out (sum_list r)) (data x)\<rparr>)
      else Inl InvalidType)"

definition toy_add :: "int variable \<Rightarrow> int variable \<Rightarrow> error + int variable" where
  "toy_add u l =
     (if arr u \<noteq> arr l then Inl RuntimeFailure
      else if map length (data u) = map length (data l)
      then Inr (u\<lparr>data := map2 (map2 (+)) (data u) (data l)\<rparr>)
      else Inl InvalidType)"

text \<open>
  Modelled from the spec: \<^verbatim>\<open>lstm.lstm\<close> is not among the sources. The activation works
  row by row on the gate input: here it adds the gate input to the first rows of the cell
  state and doubles the result for the output. The test of the link calls it with a cell
  state of four rows and a gate input of three (\<^verbatim>\<open>test_lstm.py\<close>, lines 51 to 53): it
  accepts a cell state with more rows than the gate input, and the new cell state keeps
  the remaining rows of the old one. It rejects a cell state with fewer rows, and a cell
  state that is not where the gate input is.
\<close>

definition toy_cell :: "int list list \<Rightarrow> int list list \<Rightarrow> int list list" where
  "toy_cell cs gs = map2 (map2 (+)) cs gs"

definition toy_lstm :: "int variable \<Rightarrow> int variable \<Rightarrow> error + int variable \<times> int variable" where
  "toy_lstm cv g =
     (if arr cv \<noteq> arr g then Inl RuntimeFailure
      else if length (data g) \<le> length (data cv)
      then Inr (g\<lparr>data := toy_cell (data cv) (data g) @ drop (length (data g)) (data cv)\<rparr>,
                g\<lparr>data := map (map (\<lambda>v. 2 * v)) (toy_cell (data cv) (data g))\<rparr>)
      else Inl InvalidType)"

text \<open>The collaborators of a link that is at \<open>m\<close>, and those of a link on the host.\<close>

definition toy_on :: "array_module \<Rightarrow> nat \<Rightarrow> nat \<Rightarrow> int prims" where
  "toy_on m n_in n_out =
     \<lparr>upward = toy_linear m n_in (4 * n_out), lateral = toy_linear m n_out (4 * n_out),
      add = toy_add, lstm = toy_lstm\<rparr>"

definition toy :: "nat \<Rightarrow> nat \<Rightarrow> int prims" where
  "toy n_in n_out = toy_on Numpy n_in n_out"

text \<open>The same with an activation that raises on every call.\<close>

definition toy_failing :: "nat \<Rightarrow> nat \<Rightarrow> int prims" where
  "toy_failing n_in n_out = (toy n_in n_out)\<lparr>lstm := (\<lambda>cv g. Inl RuntimeFailure)\<rparr>"

text \<open>A batch of rows of width 1 with the given entries, on the host.\<close>

definition batch1 :: "int list \<Rightarrow> int variable" where
  "batch1 vs = \<lparr>data = map (\<lambda>v. [v]) vs, dtype = Float32, arr = Numpy\<rparr>"

text \<open>
  Links obtained by calls on a fresh link of state size 1: after a call on three rows,
  after a call on one row, and after a call on one row whose activation raised.
\<close>

definition link3 :: "int lstm_link" where
  "link3 = snd (step (toy 1 1) (LSTM 1 1) (batch1 [1, 2, 3]))"

definition link1 :: "int lstm_link" where
  "link1 = snd (step (toy 1 1) (LSTM 1 1) (batch1 [1]))"

definition link_half :: "int lstm_link" where
  "link_half = snd (step (toy_failing 1 1) (LSTM 1 1) (batch1 [7]))"

text \<open>Three batches of three, two and one rows.\<close>

definition run3 :: "int variable list" where
  "run3 = [batch1 [1, 2, 3], batch1 [5, 6], batch1 [7]]"

section \<open>What a call reads of the link\<close>

text \<open>
  Two links that have the same states, and the same state size and array module while
  \<open>c\<close> is \<^verbatim>\<open>None\<close> (line 83 reads them to make the zeros).
\<close>

definition same_states :: "'a lstm_link \<Rightarrow> 'a lstm_link \<Rightarrow> bool" where
  "same_states s1 s2 \<longleftrightarrow>
     c s1 = c s2 \<and> h s1 = h s2 \<and>
     (c s1 = None \<longrightarrow> state_size s1 = state_size s2 \<and> xp s1 = xp s2)"

section \<open>One call, case by case\<close>

lemma lstm_in_unset:
  "h s = None \<Longrightarrow>
   lstm_in P s x = (case upward P x of Inl e \<Rightarrow> Inl e | Inr u \<Rightarrow> Inr (u, None))"
  by (simp add: lstm_in_def split: sum.splits)

lemma lstm_in_no_split:
  "h s = Some hv \<Longrightarrow> length (data hv) \<le> length (data x) \<Longrightarrow>
   lstm_in P s x =
     (case upward P x of
        Inl e \<Rightarrow> Inl e
      | Inr u \<Rightarrow>
         (case lateral P hv of
            Inl e \<Rightarrow> Inl e
          | Inr l \<Rightarrow> (case add P u l of Inl e \<Rightarrow> Inl e | Inr g \<Rightarrow> Inr (g, None))))"
  by (simp add: lstm_in_def split: sum.splits)

lemma lstm_in_split:
  "h s = Some hv \<Longrightarrow> length (data x) < length (data hv) \<Longrightarrow>
   lstm_in P s x =
     (case upward P x of
        Inl e \<Rightarrow> Inl e
      | Inr u \<Rightarrow>
         (case lateral P (fst (split_axis hv (length (data x)))) of
            Inl e \<Rightarrow> Inl e
          | Inr l \<Rightarrow>
             (case add P u l of
                Inl e \<Rightarrow> Inl e
              | Inr g \<Rightarrow> Inr (g, Some (snd (split_axis hv (length (data x))))))))"
  by (simp add: lstm_in_def split_axis_def split: sum.splits)

lemma cell_in_set: "c s = Some cv \<Longrightarrow> cell_in s x = cv"
  by (simp add: cell_in_def)

lemma cell_in_unset:
  "c s = None \<Longrightarrow> cell_in s x = zeros (xp s) (length (data x)) (state_size s) (dtype x)"
  by (simp add: cell_in_def)

lemma step_no_split:
  assumes "h s = Some hv" and "c s = Some cv" and "length (data hv) \<le> length (data x)"
  shows "step P s x =
     (case upward P x of
        Inl e \<Rightarrow> (Inl e, s)
      | Inr u \<Rightarrow>
         (case lateral P hv of
            Inl e \<Rightarrow> (Inl e, s)
          | Inr l \<Rightarrow>
             (case add P u l of
                Inl e \<Rightarrow> (Inl e, s)
              | Inr g \<Rightarrow>
                 (case lstm P cv g of
                    Inl e \<Rightarrow> (Inl e, s)
                  | Inr (c_new, h_new) \<Rightarrow>
                      (Inr h_new, s\<lparr>c := Some c_new, h := Some h_new\<rparr>)))))"
  using assms
  by (simp add: step_def lstm_in_no_split cell_in_set split: sum.splits prod.splits)

lemma concat_axis_data: "concat_axis a b = Inr v \<Longrightarrow> v = a\<lparr>data := data a @ data b\<rparr>"
  by (auto simp: concat_axis_def split: if_splits)

lemma lstm_in_rest:
  assumes "lstm_in P s x = Inr (g, r)"
  shows "(case r of None \<Rightarrow> [] | Some v \<Rightarrow> data v) = drop (length (data x)) (h_rows s)"
proof (cases "h s")
  case None
  with assms show ?thesis
    by (auto simp: lstm_in_unset h_rows_def split: sum.splits)
next
  case (Some hv)
  show ?thesis
  proof (cases "length (data x) < length (data hv)")
    case True
    with Some assms show ?thesis
      by (auto simp: lstm_in_split h_rows_def split_axis_def split: sum.splits)
  next
    case False
    with Some assms show ?thesis
      by (auto simp: lstm_in_no_split h_rows_def split: sum.splits)
  qed
qed

lemma step_cases:
  "step P s x =
     (case lstm_in P s x of
        Inl e \<Rightarrow> (Inl e, s)
      | Inr (g, r) \<Rightarrow>
         (case lstm P (cell_in s x) g of
            Inl e \<Rightarrow> (Inl e, s\<lparr>c := Some (cell_in s x)\<rparr>)
          | Inr (c_new, h_new) \<Rightarrow>
             (case r of
                None \<Rightarrow> (Inr h_new, s\<lparr>c := Some c_new, h := Some h_new\<rparr>)
              | Some v \<Rightarrow>
                 (case concat_axis h_new v of
                    Inl e \<Rightarrow> (Inl e, s\<lparr>c := Some c_new\<rparr>)
                  | Inr hh \<Rightarrow> (Inr hh, s\<lparr>c := Some c_new, h := Some hh\<rparr>)))))"
  by (simp add: step_def split: sum.splits prod.splits option.splits)

lemma step_returns:
  assumes "step P s x = (Inr out, s')"
  shows "\<exists>c_new h_new. gate P s x = Inr (c_new, h_new) \<and>
           s' = s\<lparr>c := Some c_new, h := Some out\<rparr> \<and>
           out = h_new\<lparr>data := data h_new @ drop (length (data x)) (h_rows s)\<rparr>"
proof -
  from assms obtain g r where in_ok: "lstm_in P s x = Inr (g, r)"
    by (auto simp: step_cases split: sum.splits)
  from assms in_ok obtain c_new h_new where g_ok: "lstm P (cell_in s x) g = Inr (c_new, h_new)"
    by (auto simp: step_cases split: sum.splits)
  have rest: "(case r of None \<Rightarrow> [] | Some v \<Rightarrow> data v) = drop (length (data x)) (h_rows s)"
    using in_ok by (rule lstm_in_rest)
  have "gate P s x = Inr (c_new, h_new)"
    using in_ok g_ok by (simp add: gate_def)
  moreover have "s' = s\<lparr>c := Some c_new, h := Some out\<rparr> \<and>
      out = h_new\<lparr>data := data h_new @ drop (length (data x)) (h_rows s)\<rparr>"
  proof (cases r)
    case None
    with assms in_ok g_ok rest show ?thesis
      by (auto simp: step_cases)
  next
    case (Some v)
    with assms in_ok g_ok rest show ?thesis
      by (auto simp: step_cases split: sum.splits dest: concat_axis_data)
  qed
  ultimately show ?thesis by blast
qed

lemma step_raises:
  assumes "step P s x = (Inl e, s')"
  shows "(lstm_in P s x = Inl e \<and> s' = s)
       \<or> (\<exists>g r. lstm_in P s x = Inr (g, r) \<and> lstm P (cell_in s x) g = Inl e \<and>
                 s' = s\<lparr>c := Some (cell_in s x)\<rparr>)
       \<or> (\<exists>g v c_new h_new. lstm_in P s x = Inr (g, Some v) \<and>
                 lstm P (cell_in s x) g = Inr (c_new, h_new) \<and>
                 concat_axis h_new v = Inl e \<and> s' = s\<lparr>c := Some c_new\<rparr>)"
  using assms
  by (auto simp: step_cases split: sum.splits option.splits)

section \<open>The first call\<close>

text \<open>
  Claim C3. On a link whose two states are \<^verbatim>\<open>None\<close> (freshly constructed or freshly
  reset), a call returns what the activation function returns for a cell state of zeros
  of shape \<open>(batch, state_size)\<close> and \<open>upward(x)\<close> alone; neither the lateral projection
  nor the addition takes part, so replacing them changes nothing.
\<close>

theorem first_call_no_lateral:
  assumes "c s = None" and "h s = None"
  shows "fst (step P s x) =
           (case upward P x of
              Inl e \<Rightarrow> Inl e
            | Inr u \<Rightarrow>
               (case lstm P (zeros (xp s) (length (data x)) (state_size s) (dtype x)) u of
                  Inl e \<Rightarrow> Inl e
                | Inr (c_new, h_new) \<Rightarrow> Inr h_new))
         \<and> data (zeros (xp s) (length (data x)) (state_size s) (dtype x) :: 'a variable) =
             replicate (length (data x)) (replicate (state_size s) (0::'a::zero))
         \<and> step (P\<lparr>lateral := f, add := a\<rparr>) s x = step P s x"
  using assms
  by (simp add: step_def lstm_in_unset cell_in_unset zeros_def split: sum.splits prod.splits)

theorem first_call_no_lateral_witness:
  "c (LSTM 1 1 :: int lstm_link) = None \<and> h (LSTM 1 1 :: int lstm_link) = None \<and>
   fst (step (toy 1 1) (LSTM 1 1) (batch1 [1, 2, 3])) =
     Inr \<lparr>data = [[2], [4], [6]], dtype = Float32, arr = Numpy\<rparr>"
  using first_call_no_lateral [where s = "LSTM 1 1" and P = "toy 1 1" and x = "batch1 [1, 2, 3]"
      and f = "\<lambda>v. Inl RuntimeFailure" and a = "\<lambda>u l. Inl RuntimeFailure"]
  by (simp add: LSTM_def reset_state_def toy_def toy_on_def toy_linear_def toy_lstm_def
      toy_cell_def batch1_def zeros_def eval_nat_numeral)

section \<open>Running the integer instance\<close>

lemmas toy_eval =
  step_cases lstm_in_def cell_in_def gate_def split_axis_def concat_axis_def Let_def
  LSTM_def reset_state_def to_gpu_def toy_def toy_on_def toy_failing_def toy_linear_def
  toy_add_def toy_lstm_def toy_cell_def batch1_def zeros_def var_to_def eval_nat_numeral

lemma link3_eq:
  "link3 =
     \<lparr>state_size = 1, c = Some \<lparr>data = [[1], [2], [3]], dtype = Float32, arr = Numpy\<rparr>,
      h = Some \<lparr>data = [[2], [4], [6]], dtype = Float32, arr = Numpy\<rparr>, xp = Numpy\<rparr>"
  by (simp add: link3_def toy_eval)

lemma link1_eq:
  "link1 =
     \<lparr>state_size = 1, c = Some \<lparr>data = [[1]], dtype = Float32, arr = Numpy\<rparr>,
      h = Some \<lparr>data = [[2]], dtype = Float32, arr = Numpy\<rparr>, xp = Numpy\<rparr>"
  by (simp add: link1_def toy_eval)

lemma link_half_eq:
  "link_half =
     \<lparr>state_size = 1, c = Some \<lparr>data = [[0]], dtype = Float32, arr = Numpy\<rparr>,
      h = None, xp = Numpy\<rparr>"
  by (simp add: link_half_def toy_eval)

section \<open>A call with the batch size of the stored output\<close>

text \<open>
  Claim C2. When \<open>h\<close> is set and has as many rows as the input batch, a call applies the
  activation function to the stored cell state and to \<open>upward(x) + lateral(h)\<close>, stores
  the new cell state in \<open>c\<close> and the new output in \<open>h\<close>, and returns the new output; if
  one of the collaborators raises, the link is left as it was.
\<close>

theorem call_equal_batch:
  assumes "h s = Some hv" and "c s = Some cv" and "length (data hv) = length (data x)"
  shows "step P s x =
     (case upward P x of
        Inl e \<Rightarrow> (Inl e, s)
      | Inr u \<Rightarrow>
         (case lateral P hv of
            Inl e \<Rightarrow> (Inl e, s)
          | Inr l \<Rightarrow>
             (case add P u l of
                Inl e \<Rightarrow> (Inl e, s)
              | Inr g \<Rightarrow>
                 (case lstm P cv g of
                    Inl e \<Rightarrow> (Inl e, s)
                  | Inr (c_new, h_new) \<Rightarrow>
                      (Inr h_new, s\<lparr>c := Some c_new, h := Some h_new\<rparr>)))))"
  using assms by (simp add: step_no_split)

theorem call_equal_batch_witness:
  "step (toy 1 1) link3 (batch1 [1, 1, 1]) =
     (Inr \<lparr>data = [[8], [14], [20]], dtype = Float32, arr = Numpy\<rparr>,
      link3\<lparr>c := Some \<lparr>data = [[4], [7], [10]], dtype = Float32, arr = Numpy\<rparr>,
            h := Some \<lparr>data = [[8], [14], [20]], dtype = Float32, arr = Numpy\<rparr>\<rparr>)"
  using call_equal_batch [where s = link3 and P = "toy 1 1" and x = "batch1 [1, 1, 1]"
      and hv = "\<lparr>data = [[2], [4], [6]], dtype = Float32, arr = Numpy\<rparr>"
      and cv = "\<lparr>data = [[1], [2], [3]], dtype = Float32, arr = Numpy\<rparr>"]
  by (simp add: link3_eq toy_def toy_on_def toy_linear_def toy_add_def toy_lstm_def
      toy_cell_def batch1_def eval_nat_numeral)

section \<open>A call that raises\<close>

text \<open>
  Claim C4, as the code has it. The states are not updated together: line 83 assigns the
  zeros to \<open>c\<close> before the activation function is called, and line 86 assigns the new
  cell state before the concatenation of line 88. On a fresh link whose activation
  raises, the call leaves \<open>c\<close> set to the zeros and \<open>h\<close> at \<^verbatim>\<open>None\<close>.
\<close>

theorem raising_call_counterexample:
  "c (LSTM 1 1 :: int lstm_link) = None \<and> h (LSTM 1 1 :: int lstm_link) = None \<and>
   step (toy_failing 1 1) (LSTM 1 1) (batch1 [7]) =
     (Inl RuntimeFailure,
      \<lparr>state_size = 1, c = Some \<lparr>data = [[0]], dtype = Float32, arr = Numpy\<rparr>,
       h = None, xp = Numpy\<rparr>)"
  by (simp add: toy_eval)

text \<open>
  Claim C4, amended. A call that raises leaves \<open>h\<close>, \<open>state_size\<close> and \<open>xp\<close> as they
  were. If the exception comes from \<open>upward\<close>, \<open>lateral\<close> or the addition, \<open>c\<close> is as
  it was too; if it comes from the activation function, \<open>c\<close> holds the cell state that
  was passed to it (the stored one, or the zeros when it was \<^verbatim>\<open>None\<close>); if it comes from
  the concatenation, \<open>c\<close> already holds the new cell state.
\<close>

theorem raising_call_states:
  assumes "step P s x = (Inl e, s')"
  shows "h s' = h s \<and> state_size s' = state_size s \<and> xp s' = xp s \<and>
     ((lstm_in P s x = Inl e \<and> c s' = c s)
      \<or> (\<exists>g r. lstm_in P s x = Inr (g, r) \<and> lstm P (cell_in s x) g = Inl e \<and>
                c s' = Some (cell_in s x))
      \<or> (\<exists>g v c_new h_new. lstm_in P s x = Inr (g, Some v) \<and>
                lstm P (cell_in s x) g = Inr (c_new, h_new) \<and>
                concat_axis h_new v = Inl e \<and> c s' = Some c_new))"
  using step_raises [OF assms] by auto

theorem raising_call_states_witness:
  "step (toy_failing 1 1) (LSTM 1 1) (batch1 [7]) = (Inl RuntimeFailure, link_half) \<and>
   h link_half = h (LSTM 1 1 :: int lstm_link) \<and>
   state_size link_half = state_size (LSTM 1 1 :: int lstm_link) \<and>
   xp link_half = xp (LSTM 1 1 :: int lstm_link)"
proof -
  have st: "step (toy_failing 1 1) (LSTM 1 1) (batch1 [7]) = (Inl RuntimeFailure, link_half)"
    by (simp add: link_half_def toy_eval)
  from raising_call_states [OF st] st show ?thesis by blast
qed

section \<open>The initial cell state\<close>

text \<open>
  Claim C5, as the code has it. Line 83 allocates the zeros through the array module of
  the link (\<^verbatim>\<open>xp = self.xp\<close>) and names no device; where the input batch is, is not
  read. A link made on the host and moved by \<^verbatim>\<open>to_gpu(1)\<close> while the current device is
  0 has its projections on device 1 and takes a batch that is on device 1; the zeros that
  line 83 assigns to \<open>c\<close> are on device 0, where \<^verbatim>\<open>cupy\<close> allocates. The activation
  finds its two arguments on different devices and raises, which leaves \<open>c\<close> as line 83
  has set it.
\<close>

theorem cell_state_device_counterexample:
  "c (to_gpu 0 (Some 1) (LSTM 1 1) :: int lstm_link) = None \<and>
   arr (var_to (Cupy 1) (batch1 [7])) = Cupy 1 \<and>
   lstm_in (toy_on (Cupy 1) 1 1) (to_gpu 0 (Some 1) (LSTM 1 1)) (var_to (Cupy 1) (batch1 [7])) =
     Inr (\<lparr>data = [[7, 7, 7, 7]], dtype = Float32, arr = Cupy 1\<rparr>, None) \<and>
   cell_in (to_gpu 0 (Some 1) (LSTM 1 1)) (var_to (Cupy 1) (batch1 [7])) =
     \<lparr>data = [[0::int]], dtype = Float32, arr = Cupy 0\<rparr> \<and>
   step (toy_on (Cupy 1) 1 1) (to_gpu 0 (Some 1) (LSTM 1 1)) (var_to (Cupy 1) (batch1 [7])) =
     (Inl RuntimeFailure,
      \<lparr>state_size = 1, c = Some \<lparr>data = [[0]], dtype = Float32, arr = Cupy 0\<rparr>,
       h = None, xp = Cupy 0\<rparr>)"
  by (simp add: toy_eval)

text \<open>
  Claim C5, amended. When \<open>c\<close> is \<^verbatim>\<open>None\<close> and the call reaches line 81, the activation
  function is applied to a cell state of zeros of shape \<open>(batch, state_size)\<close>, with the
  element type of the input, allocated by the array module of the link (on the host for
  \<^verbatim>\<open>numpy\<close>, on the current device for \<^verbatim>\<open>cupy\<close>); this is the value of \<open>c\<close> that a
  raising activation leaves behind. Where the input batch is plays no part: the same
  batch elsewhere gives the same zeros, which are where the input batch is exactly when
  the input batch is where the array module of the link allocates.
\<close>

theorem cell_state_zeros:
  assumes "c s = None" and "lstm_in P s x = Inr (g, r)"
  shows "gate P s x = lstm P (zeros (xp s) (length (data x)) (state_size s) (dtype x)) g
     \<and> (\<forall>e. lstm P (zeros (xp s) (length (data x)) (state_size s) (dtype x)) g = Inl e \<longrightarrow>
            step P s x =
              (Inl e, s\<lparr>c := Some (zeros (xp s) (length (data x)) (state_size s) (dtype x))\<rparr>))
     \<and> data (zeros (xp s) (length (data x)) (state_size s) (dtype x) :: 'a variable) =
         replicate (length (data x)) (replicate (state_size s) (0::'a::zero))
     \<and> dtype (zeros (xp s) (length (data x)) (state_size s) (dtype x) :: 'a variable) = dtype x
     \<and> arr (zeros (xp s) (length (data x)) (state_size s) (dtype x) :: 'a variable) = xp s
     \<and> (arr (zeros (xp s) (length (data x)) (state_size s) (dtype x) :: 'a variable) = arr x
          \<longleftrightarrow> arr x = xp s)
     \<and> cell_in s (var_to m x) = cell_in s x"
  using assms
  by (simp add: gate_def step_cases cell_in_unset) (auto simp: zeros_def var_to_def)

theorem cell_state_zeros_witness:
  "step (toy_failing 1 1) (LSTM 1 1) (batch1 [7]) =
     (Inl RuntimeFailure, (LSTM 1 1)\<lparr>c := Some (zeros Numpy 1 1 Float32)\<rparr>)"
proof -
  have a: "c (LSTM 1 1 :: int lstm_link) = None"
    by (simp add: LSTM_def reset_state_def)
  have b: "lstm_in (toy_failing 1 1) (LSTM 1 1) (batch1 [7]) =
      Inr (\<lparr>data = [[7, 7, 7, 7]], dtype = Float32, arr = Numpy\<rparr>, None)"
    by (simp add: toy_eval)
  have f: "lstm (toy_failing 1 1) cv g = Inl RuntimeFailure" for cv g
    by (simp add: toy_failing_def)
  have v: "xp (LSTM 1 1 :: int lstm_link) = Numpy" "state_size (LSTM 1 1 :: int lstm_link) = 1"
    "length (data (batch1 [7])) = 1" "dtype (batch1 [7]) = Float32"
    by (simp_all add: LSTM_def reset_state_def batch1_def)
  from cell_state_zeros [OF a b] f
  have "step (toy_failing 1 1) (LSTM 1 1) (batch1 [7]) =
     (Inl RuntimeFailure, (LSTM 1 1)\<lparr>c := Some (zeros (xp (LSTM 1 1 :: int lstm_link))
        (length (data (batch1 [7]))) (state_size (LSTM 1 1 :: int lstm_link))
        (dtype (batch1 [7])))\<rparr>)"
    by blast
  then show ?thesis unfolding v .
qed

section \<open>Runs from a reset link\<close>

lemma reset_state_eq:
  "state_size s1 = state_size s2 \<Longrightarrow> xp s1 = xp s2 \<Longrightarrow>
   reset_state s1 = (reset_state s2 :: 'a lstm_link)"
  by (cases s1, cases s2) (simp add: reset_state_def)

lemma lstm_in_same: "h s1 = h s2 \<Longrightarrow> lstm_in P s1 x = lstm_in P s2 x"
  by (simp add: lstm_in_def Let_def cong: sum.case_cong)

lemma cell_in_same: "same_states s1 s2 \<Longrightarrow> cell_in s1 x = cell_in s2 x"
  by (auto simp: same_states_def cell_in_def split: option.splits)

lemma step_same:
  assumes "same_states s1 s2"
  shows "fst (step P s1 x) = fst (step P s2 x)
       \<and> same_states (snd (step P s1 x)) (snd (step P s2 x))"
proof -
  from assms have hh: "h s1 = h s2" by (simp add: same_states_def)
  have li: "lstm_in P s1 x = lstm_in P s2 x" using hh by (rule lstm_in_same)
  have ci: "cell_in s1 x = cell_in s2 x" using assms by (rule cell_in_same)
  show ?thesis
  proof (cases "lstm_in P s2 x")
    case (Inl e)
    with li assms show ?thesis by (simp add: step_cases)
  next
    case (Inr p)
    obtain g r where p: "p = (g, r)" by (cases p)
    show ?thesis
      using li ci Inr p hh
      by (simp add: step_cases same_states_def split: sum.splits prod.splits option.splits)
  qed
qed

lemma run_same:
  "same_states s1 s2 \<Longrightarrow>
   outputs P s1 xs = outputs P s2 xs \<and> same_states (exec P s1 xs) (exec P s2 xs)"
proof (induction xs arbitrary: s1 s2)
  case Nil
  then show ?case by simp
next
  case (Cons x xs)
  from step_same [OF Cons.prems, of P x]
  have o: "fst (step P s1 x) = fst (step P s2 x)"
    and n: "same_states (snd (step P s1 x)) (snd (step P s2 x))"
    by simp_all
  from Cons.IH [OF n] o show ?case by simp
qed

text \<open>
  Claim C7. With the collaborators fixed, a call reads the link through \<open>c\<close> and \<open>h\<close>
  only, and through \<open>state_size\<close> and \<open>xp\<close> only to make the zeros while \<open>c\<close> is
  \<^verbatim>\<open>None\<close>: in a run of calls, two links that agree there return or raise the same at
  every call and have the same states afterwards. In particular two runs of the same
  input batches from freshly reset links of the same state size and array module,
  whatever happened to the links before the reset, return or raise the same at every
  call.
\<close>

theorem runs_agree:
  "(c s1 = c s2 \<and> h s1 = h s2 \<and>
      (c s1 = None \<longrightarrow> state_size s1 = state_size s2 \<and> xp s1 = xp s2) \<longrightarrow>
      outputs P s1 xs = outputs P s2 xs \<and>
      c (exec P s1 xs) = c (exec P s2 xs) \<and> h (exec P s1 xs) = h (exec P s2 xs))
   \<and> (state_size s1 = state_size s2 \<and> xp s1 = xp s2 \<longrightarrow>
      outputs P (reset_state s1) xs = outputs P (reset_state s2) xs)"
proof -
  have "outputs P s1 xs = outputs P s2 xs \<and>
      c (exec P s1 xs) = c (exec P s2 xs) \<and> h (exec P s1 xs) = h (exec P s2 xs)"
    if "same_states s1 s2"
    using run_same [OF that, of P xs] by (simp add: same_states_def)
  moreover have "outputs P (reset_state s1) xs = outputs P (reset_state s2) xs"
    if "state_size s1 = state_size s2" and "xp s1 = xp s2"
    using reset_state_eq [OF that] by simp
  ultimately show ?thesis by (simp add: same_states_def)
qed

theorem runs_agree_witness:
  "outputs (toy 1 1) (link3\<lparr>state_size := 5, xp := Cupy 0\<rparr>) [batch1 [5, 6], batch1 [7]] =
     outputs (toy 1 1) link3 [batch1 [5, 6], batch1 [7]] \<and>
   outputs (toy 1 1) link3 [batch1 [5, 6], batch1 [7]] =
     [Inr \<lparr>data = [[16], [24], [6]], dtype = Float32, arr = Numpy\<rparr>,
      Inr \<lparr>data = [[62], [24], [6]], dtype = Float32, arr = Numpy\<rparr>] \<and>
   outputs (toy 1 1) (reset_state link3) [batch1 [1, 2], batch1 [3]] =
     outputs (toy 1 1) (reset_state (LSTM 1 1)) [batch1 [1, 2], batch1 [3]] \<and>
   outputs (toy 1 1) (reset_state (LSTM 1 1)) [batch1 [1, 2], batch1 [3]] =
     [Inr \<lparr>data = [[2], [4]], dtype = Float32, arr = Numpy\<rparr>,
      Inr \<lparr>data = [[12], [4]], dtype = Float32, arr = Numpy\<rparr>]"
proof -
  have v1: "outputs (toy 1 1) link3 [batch1 [5, 6], batch1 [7]] =
     [Inr \<lparr>data = [[16], [24], [6]], dtype = Float32, arr = Numpy\<rparr>,
      Inr \<lparr>data = [[62], [24], [6]], dtype = Float32, arr = Numpy\<rparr>]"
    by (simp add: link3_eq toy_eval)
  have v2: "outputs (toy 1 1) (reset_state (LSTM 1 1)) [batch1 [1, 2], batch1 [3]] =
     [Inr \<lparr>data = [[2], [4]], dtype = Float32, arr = Numpy\<rparr>,
      Inr \<lparr>data = [[12], [4]], dtype = Float32, arr = Numpy\<rparr>]"
    by (simp add: toy_eval)
  have a: "c (link3\<lparr>state_size := 5, xp := Cupy 0\<rparr>) = c link3"
    "h (link3\<lparr>state_size := 5, xp := Cupy 0\<rparr>) = h link3" "c link3 \<noteq> None"
    by (simp_all add: link3_eq)
  have b: "state_size link3 = state_size (LSTM 1 1 :: int lstm_link)"
    "xp link3 = xp (LSTM 1 1 :: int lstm_link)"
    by (simp_all add: link3_eq LSTM_def reset_state_def)
  from runs_agree [of "link3\<lparr>state_size := 5, xp := Cupy 0\<rparr>" link3 "toy 1 1"
      "[batch1 [5, 6], batch1 [7]]"] a
  have "outputs (toy 1 1) (link3\<lparr>state_size := 5, xp := Cupy 0\<rparr>) [batch1 [5, 6], batch1 [7]] =
      outputs (toy 1 1) link3 [batch1 [5, 6], batch1 [7]]"
    by simp
  moreover from runs_agree [of link3 "LSTM 1 1" "toy 1 1" "[batch1 [1, 2], batch1 [3]]"] b
  have "outputs (toy 1 1) (reset_state link3) [batch1 [1, 2], batch1 [3]] =
      outputs (toy 1 1) (reset_state (LSTM 1 1)) [batch1 [1, 2], batch1 [3]]"
    by simp
  ultimately show ?thesis using v1 v2 by simp
qed

section \<open>The two states of the link\<close>

lemma reach_h_c: "reach P s \<Longrightarrow> h s \<noteq> None \<Longrightarrow> c s \<noteq> None"
proof (induction rule: reach.induct)
  case (reach_init n_in n_out)
  then show ?case by (simp add: LSTM_def reset_state_def)
next
  case (reach_reset s)
  then show ?case by (simp add: reset_state_def)
next
  case (reach_cpu s)
  then show ?case by (simp add: to_cpu_def)
next
  case (reach_gpu s cur device)
  then show ?case by (simp add: to_gpu_def Let_def)
next
  case (reach_step s x)
  obtain r s' where st: "step P s x = (r, s')" by (cases "step P s x")
  show ?case
  proof (cases r)
    case (Inl e)
    with st reach_step show ?thesis
      by (auto dest!: step_raises)
  next
    case (Inr out)
    with st show ?thesis
      by (auto dest!: step_returns)
  qed
qed

lemma reach_returning_both:
  "reach_returning P s \<Longrightarrow> (c s = None \<longleftrightarrow> h s = None)"
proof (induction rule: reach_returning.induct)
  case (ret_init n_in n_out)
  show ?case by (simp add: LSTM_def reset_state_def)
next
  case (ret_reset s)
  show ?case by (simp add: reset_state_def)
next
  case (ret_cpu s)
  then show ?case by (simp add: to_cpu_def)
next
  case (ret_gpu s cur device)
  then show ?case by (simp add: to_gpu_def Let_def)
next
  case (ret_step s x out s')
  from ret_step.hyps(2) show ?case
    by (auto dest!: step_returns)
qed

lemma reset_unset: "c s = None \<Longrightarrow> h s = None \<Longrightarrow> reset_state s = s"
  by (cases s) (simp add: reset_state_def)

text \<open>
  Claim C6, as the code has it. A call that raises is a way out of \<^verbatim>\<open>__call__\<close> too, and
  it can leave the link with \<open>c\<close> set and \<open>h\<close> at \<^verbatim>\<open>None\<close>: on a fresh link whose
  activation raises, line 83 has already assigned the zeros.
\<close>

theorem unset_or_set_counterexample:
  "reach (toy_failing 1 1) link_half \<and>
   c link_half = Some \<lparr>data = [[0]], dtype = Float32, arr = Numpy\<rparr> \<and>
   h link_half = None"
proof -
  have "reach (toy_failing 1 1) (snd (step (toy_failing 1 1) (LSTM 1 1) (batch1 [7])))"
    by (rule reach_step [OF reach_init])
  then have "reach (toy_failing 1 1) link_half"
    by (simp only: link_half_def)
  then show ?thesis by (simp add: link_half_eq)
qed

text \<open>
  Claim C6, amended. The constructor and \<^verbatim>\<open>reset_state\<close> leave both states at
  \<^verbatim>\<open>None\<close>; \<^verbatim>\<open>reset_state\<close> changes nothing on such a link; a call that returns leaves
  both states set. In every link reached by the constructor, resets, transfers and calls
  that return, the two states are both \<^verbatim>\<open>None\<close> or both set. When calls may raise, what
  remains is that \<open>h\<close> is set only if \<open>c\<close> is.
\<close>

theorem unset_or_set:
  "(c (LSTM n_in n_out :: 'a::zero lstm_link) = None \<and>
      h (LSTM n_in n_out :: 'a lstm_link) = None)
   \<and> (c (reset_state s) = None \<and> h (reset_state s) = None)
   \<and> (c s = None \<and> h s = None \<longrightarrow> reset_state s = s)
   \<and> (step P s x = (Inr out, s') \<longrightarrow> c s' \<noteq> None \<and> h s' \<noteq> None)
   \<and> (reach_returning P s \<longrightarrow>
         (c s = None \<and> h s = None) \<or> (c s \<noteq> None \<and> h s \<noteq> None))
   \<and> (reach P s \<longrightarrow> (c s = None \<and> h s = None) \<or> c s \<noteq> None)"
proof -
  have "step P s x = (Inr out, s') \<longrightarrow> c s' \<noteq> None \<and> h s' \<noteq> None"
    by (auto dest!: step_returns)
  moreover have "reach_returning P s \<longrightarrow>
      (c s = None \<and> h s = None) \<or> (c s \<noteq> None \<and> h s \<noteq> None)"
    using reach_returning_both [of P s] by auto
  moreover have "reach P s \<longrightarrow> (c s = None \<and> h s = None) \<or> c s \<noteq> None"
    using reach_h_c [of P s] by blast
  ultimately show ?thesis
    by (simp add: LSTM_def reset_state_def reset_unset)
qed

theorem unset_or_set_witness:
  "reset_state (LSTM 1 1) = (LSTM 1 1 :: int lstm_link) \<and>
   c link3 \<noteq> None \<and> h link3 \<noteq> None"
proof -
  have a: "c (LSTM 1 1 :: int lstm_link) = None \<and> h (LSTM 1 1 :: int lstm_link) = None"
    by (simp add: LSTM_def reset_state_def)
  have st: "step (toy 1 1) (LSTM 1 1) (batch1 [1, 2, 3]) =
      (Inr \<lparr>data = [[2], [4], [6]], dtype = Float32, arr = Numpy\<rparr>, link3)"
    by (simp add: link3_def toy_eval)
  from unset_or_set [where P = "toy 1 1" and s = "LSTM 1 1" and x = "batch1 [1, 2, 3]"
      and out = "\<lparr>data = [[2], [4], [6]], dtype = Float32, arr = Numpy\<rparr>" and s' = link3]
    a st
  show ?thesis by blast
qed

section \<open>A call with more rows than the stored output\<close>

text \<open>
  Claim C10. When \<open>h\<close> is set and has fewer rows than the input batch, the code checks
  nothing itself: lines 72 to 80 take the branch of the equal batch size, add the lateral
  projection of the whole stored \<open>h\<close> to \<open>upward(x)\<close> and set no rows aside. With \<open>c\<close>
  set, as it is whenever \<open>h\<close> is on a link reached through the methods of the class,
  nothing is assigned before the activation function has returned, and a call that
  raises leaves the link as it was.
\<close>

theorem growing_batch:
  assumes "h s = Some hv" and "c s = Some cv" and "length (data hv) < length (data x)"
  shows "lstm_in P s x =
       (case upward P x of
          Inl e \<Rightarrow> Inl e
        | Inr u \<Rightarrow>
           (case lateral P hv of
              Inl e \<Rightarrow> Inl e
            | Inr l \<Rightarrow> (case add P u l of Inl e \<Rightarrow> Inl e | Inr g \<Rightarrow> Inr (g, None))))
     \<and> step P s x =
       (case upward P x of
          Inl e \<Rightarrow> (Inl e, s)
        | Inr u \<Rightarrow>
           (case lateral P hv of
              Inl e \<Rightarrow> (Inl e, s)
            | Inr l \<Rightarrow>
               (case add P u l of
                  Inl e \<Rightarrow> (Inl e, s)
                | Inr g \<Rightarrow>
                   (case lstm P cv g of
                      Inl e \<Rightarrow> (Inl e, s)
                    | Inr (c_new, h_new) \<Rightarrow>
                        (Inr h_new, s\<lparr>c := Some c_new, h := Some h_new\<rparr>)))))
     \<and> (\<forall>e s'. step P s x = (Inl e, s') \<longrightarrow> s' = s)"
proof -
  have li: "lstm_in P s x =
       (case upward P x of
          Inl e \<Rightarrow> Inl e
        | Inr u \<Rightarrow>
           (case lateral P hv of
              Inl e \<Rightarrow> Inl e
            | Inr l \<Rightarrow> (case add P u l of Inl e \<Rightarrow> Inl e | Inr g \<Rightarrow> Inr (g, None))))"
    using assms(1,3) by (intro lstm_in_no_split) simp_all
  have eq: "step P s x =
       (case upward P x of
          Inl e \<Rightarrow> (Inl e, s)
        | Inr u \<Rightarrow>
           (case lateral P hv of
              Inl e \<Rightarrow> (Inl e, s)
            | Inr l \<Rightarrow>
               (case add P u l of
                  Inl e \<Rightarrow> (Inl e, s)
                | Inr g \<Rightarrow>
                   (case lstm P cv g of
                      Inl e \<Rightarrow> (Inl e, s)
                    | Inr (c_new, h_new) \<Rightarrow>
                        (Inr h_new, s\<lparr>c := Some c_new, h := Some h_new\<rparr>)))))"
    using assms by (intro step_no_split) simp_all
  have "\<forall>e s'. step P s x = (Inl e, s') \<longrightarrow> s' = s"
    unfolding eq by (auto split: sum.splits)
  with li eq show ?thesis by blast
qed

text \<open>
  On the link left by a call on one row, a call on two rows: \<open>h\<close> and \<open>c\<close> are set,
  the lateral projection is applied to the one stored row, the addition of a
  pre-activation of two rows and a lateral term of one row raises, and the link is as it
  was.
\<close>

theorem growing_batch_witness:
  "h link1 = Some \<lparr>data = [[2]], dtype = Float32, arr = Numpy\<rparr> \<and>
   c link1 = Some \<lparr>data = [[1]], dtype = Float32, arr = Numpy\<rparr> \<and>
   upward (toy 1 1) (batch1 [5, 6]) =
     Inr \<lparr>data = [[5, 5, 5, 5], [6, 6, 6, 6]], dtype = Float32, arr = Numpy\<rparr> \<and>
   lateral (toy 1 1) \<lparr>data = [[2]], dtype = Float32, arr = Numpy\<rparr> =
     Inr \<lparr>data = [[2, 2, 2, 2]], dtype = Float32, arr = Numpy\<rparr> \<and>
   add (toy 1 1) \<lparr>data = [[5, 5, 5, 5], [6, 6, 6, 6]], dtype = Float32, arr = Numpy\<rparr>
     \<lparr>data = [[2, 2, 2, 2]], dtype = Float32, arr = Numpy\<rparr> = Inl InvalidType \<and>
   lstm_in (toy 1 1) link1 (batch1 [5, 6]) = Inl InvalidType \<and>
   step (toy 1 1) link1 (batch1 [5, 6]) = (Inl InvalidType, link1)"
proof -
  have hv: "h link1 = Some \<lparr>data = [[2]], dtype = Float32, arr = Numpy\<rparr>"
    by (simp add: link1_eq)
  have cv: "c link1 = Some \<lparr>data = [[1]], dtype = Float32, arr = Numpy\<rparr>"
    by (simp add: link1_eq)
  have len: "length (data \<lparr>data = [[2::int]], dtype = Float32, arr = Numpy\<rparr>)
      < length (data (batch1 [5, 6]))"
    by (simp add: batch1_def)
  have u: "upward (toy 1 1) (batch1 [5, 6]) =
      Inr \<lparr>data = [[5, 5, 5, 5], [6, 6, 6, 6]], dtype = Float32, arr = Numpy\<rparr>"
    by (simp add: toy_def toy_on_def toy_linear_def batch1_def eval_nat_numeral)
  have l: "lateral (toy 1 1) \<lparr>data = [[2]], dtype = Float32, arr = Numpy\<rparr> =
      Inr \<lparr>data = [[2, 2, 2, 2]], dtype = Float32, arr = Numpy\<rparr>"
    by (simp add: toy_def toy_on_def toy_linear_def eval_nat_numeral)
  have a: "add (toy 1 1) \<lparr>data = [[5, 5, 5, 5], [6, 6, 6, 6]], dtype = Float32, arr = Numpy\<rparr>
      \<lparr>data = [[2, 2, 2, 2]], dtype = Float32, arr = Numpy\<rparr> = Inl InvalidType"
    by (simp add: toy_def toy_on_def toy_add_def)
  from growing_batch [OF hv cv len, of "toy 1 1", unfolded u l a sum.case]
  have "lstm_in (toy 1 1) link1 (batch1 [5, 6]) = Inl InvalidType"
    and "step (toy 1 1) link1 (batch1 [5, 6]) = (Inl InvalidType, link1)"
    by simp_all
  with hv cv u l a show ?thesis by blast
qed

section \<open>Batch sizes under the shapes of the collaborators\<close>

lemma lstm_in_rows:
  assumes "shapes_ok P" and "lstm_in P s x = Inr (g, r)"
  shows "length (data g) = length (data x)"
proof -
  from assms(1) have up: "\<And>y. upward P x = Inr y \<Longrightarrow> length (data y) = length (data x)"
    and sm: "\<And>u l g. add P u l = Inr g \<Longrightarrow> length (data g) = length (data u)"
    by (auto simp: shapes_ok_def keeps_batch_def sum_keeps_batch_def)
  from assms(2) show ?thesis
    by (auto simp: lstm_in_def Let_def split_axis_def
        split: sum.splits option.splits if_splits dest!: up sm)
qed

lemma gate_rows:
  assumes "shapes_ok P" and "gate P s x = Inr (c_new, h_new)"
  shows "length (data h_new) = length (data x)"
proof -
  from assms(2) obtain g r where in_ok: "lstm_in P s x = Inr (g, r)"
    and g_ok: "lstm P (cell_in s x) g = Inr (c_new, h_new)"
    by (auto simp: gate_def split: sum.splits)
  from assms(1) g_ok have "length (data h_new) = length (data g)"
    by (auto simp: shapes_ok_def output_keeps_batch_def)
  with lstm_in_rows [OF assms(1) in_ok] show ?thesis by simp
qed

lemma toy_shapes_ok: "shapes_ok (toy n_in n_out)"
  by (auto simp: shapes_ok_def keeps_batch_def sum_keeps_batch_def output_keeps_batch_def
      toy_def toy_on_def toy_linear_def toy_add_def toy_lstm_def toy_cell_def
      split: if_splits dest: map_eq_imp_length_eq)

lemma toy_reads_head: "gate_reads_head toy_lstm"
proof -
  have "toy_cell (take (length gs) cs) gs = toy_cell cs gs" for cs gs :: "int list list"
  proof -
    have "zip (take (length gs) cs) gs = take (length gs) (zip cs gs)"
      by (simp add: take_zip)
    also have "\<dots> = zip cs gs" by simp
    finally show ?thesis by (simp add: toy_cell_def)
  qed
  then show ?thesis
    by (auto simp: gate_reads_head_def toy_lstm_def split_axis_def)
qed

section \<open>A call with fewer rows than the stored output\<close>

text \<open>
  Claim C8, as the code has it. The code cuts \<open>h\<close> to the rows of the input batch and
  attaches the rest again, but it passes the whole stored \<open>c\<close> to the activation
  function and stores what comes back. With an activation that keeps the rows of the cell
  state beyond those of the gate input, a call on two rows after a call on three leaves
  \<open>c\<close> with three rows, like \<open>h\<close>.
\<close>

theorem shrinking_batch_dims_counterexample:
  "map_option (\<lambda>v. length (data v)) (h link3) = Some 3 \<and>
   length (data (batch1 [5, 6])) = 2 \<and>
   step (toy 1 1) link3 (batch1 [5, 6]) =
     (Inr \<lparr>data = [[16], [24], [6]], dtype = Float32, arr = Numpy\<rparr>,
      \<lparr>state_size = 1, c = Some \<lparr>data = [[8], [12], [3]], dtype = Float32, arr = Numpy\<rparr>,
       h = Some \<lparr>data = [[16], [24], [6]], dtype = Float32, arr = Numpy\<rparr>, xp = Numpy\<rparr>) \<and>
   map_option (\<lambda>v. length (data v)) (c (snd (step (toy 1 1) link3 (batch1 [5, 6])))) = Some 3 \<and>
   map_option (\<lambda>v. length (data v)) (h (snd (step (toy 1 1) link3 (batch1 [5, 6])))) = Some 3"
  by (simp add: link3_eq toy_eval)

text \<open>
  Claim C8, amended. A call that returns on an input batch of fewer rows than the stored
  \<open>h\<close> leaves \<open>h\<close> with the rows it had, and \<open>c\<close> holding the new cell state that the
  activation function returned for the whole stored \<open>c\<close> and the gate input of the
  input batch: the code does not cut \<open>c\<close>, whose rows are what the activation makes them.
  With an activation whose new cell state has the rows of the cell state it is given, a
  \<open>c\<close> with the rows of \<open>h\<close> keeps them, and the batch sizes of the two states do not
  diverge.
\<close>

theorem shrinking_batch_states:
  assumes "shapes_ok P" and "h s = Some hv" and "c s = Some cv"
    and "length (data x) < length (data hv)" and "step P s x = (Inr out, s')"
  shows "\<exists>g c_new h_new.
      lstm_in P s x = Inr (g, Some (snd (split_axis hv (length (data x))))) \<and>
      length (data g) = length (data x) \<and>
      lstm P cv g = Inr (c_new, h_new) \<and>
      c s' = Some c_new \<and> h s' = Some out \<and>
      length (data out) = length (data hv) \<and>
      (length (data c_new) = length (data cv) \<and> length (data cv) = length (data hv) \<longrightarrow>
         length (data c_new) = length (data out))"
proof -
  from step_returns [OF assms(5)] obtain c_new h_new where
    g: "gate P s x = Inr (c_new, h_new)" and
    s': "s' = s\<lparr>c := Some c_new, h := Some out\<rparr>" and
    out: "out = h_new\<lparr>data := data h_new @ drop (length (data x)) (h_rows s)\<rparr>"
    by blast
  from g obtain gi r where in_ok: "lstm_in P s x = Inr (gi, r)"
    and act: "lstm P cv gi = Inr (c_new, h_new)"
    using assms(3) by (auto simp: gate_def cell_in_set split: sum.splits)
  from in_ok assms(2,4) have r: "r = Some (snd (split_axis hv (length (data x))))"
    by (auto simp: lstm_in_split split: sum.splits)
  have gl: "length (data gi) = length (data x)"
    using assms(1) in_ok by (rule lstm_in_rows)
  from gate_rows [OF assms(1) g] have rows: "length (data h_new) = length (data x)" .
  have "length (data out) = length (data hv)"
    using out rows assms(2,4) by (simp add: h_rows_def)
  with in_ok r gl act s' show ?thesis by simp
qed

theorem shrinking_batch_states_witness:
  "c (snd (step (toy 1 1) link3 (batch1 [5, 6]))) =
     Some \<lparr>data = [[8], [12], [3]], dtype = Float32, arr = Numpy\<rparr> \<and>
   h (snd (step (toy 1 1) link3 (batch1 [5, 6]))) =
     Some \<lparr>data = [[16], [24], [6]], dtype = Float32, arr = Numpy\<rparr> \<and>
   length (data \<lparr>data = [[16::int], [24], [6]], dtype = Float32, arr = Numpy\<rparr>) =
     length (data \<lparr>data = [[2::int], [4], [6]], dtype = Float32, arr = Numpy\<rparr>)"
proof -
  have hv: "h link3 = Some \<lparr>data = [[2], [4], [6]], dtype = Float32, arr = Numpy\<rparr>"
    by (simp add: link3_eq)
  have cv: "c link3 = Some \<lparr>data = [[1], [2], [3]], dtype = Float32, arr = Numpy\<rparr>"
    by (simp add: link3_eq)
  have len: "length (data (batch1 [5, 6])) <
      length (data \<lparr>data = [[2::int], [4], [6]], dtype = Float32, arr = Numpy\<rparr>)"
    by (simp add: batch1_def)
  have st: "step (toy 1 1) link3 (batch1 [5, 6]) =
      (Inr \<lparr>data = [[16], [24], [6]], dtype = Float32, arr = Numpy\<rparr>,
       snd (step (toy 1 1) link3 (batch1 [5, 6])))"
    by (simp add: link3_eq toy_eval)
  have c': "c (snd (step (toy 1 1) link3 (batch1 [5, 6]))) =
      Some \<lparr>data = [[8], [12], [3]], dtype = Float32, arr = Numpy\<rparr>"
    by (simp add: link3_eq toy_eval)
  from shrinking_batch_states [OF toy_shapes_ok hv cv len st] c' show ?thesis by blast
qed

text \<open>
  Claim C1. When \<open>h\<close> is set and has more rows than the input batch of \<open>b\<close> rows, a
  call that returns gives the new output followed by the rows of the stored \<open>h\<close> from
  \<open>b\<close> on, in that order and with the batch size of the stored \<open>h\<close>: its first \<open>b\<close>
  rows are the output of the activation function for the first \<open>b\<close> rows of the stored
  \<open>c\<close> and \<open>upward(x) + lateral(first b rows of h)\<close>, the other rows are those of the
  stored \<open>h\<close>, unchanged. The code passes the whole stored \<open>c\<close>; the pre-activation
  and the new output are taken to have the rows of the input batch, and the activation
  to read the first rows of the cell state only.
\<close>

theorem shrinking_batch_output:
  assumes "shapes_ok P" and "gate_reads_head (lstm P)"
    and "h s = Some hv" and "c s = Some cv" and "length (data x) < length (data hv)"
    and "step P s x = (Inr out, s')"
  shows "\<exists>u l g c_head h_new.
      upward P x = Inr u \<and>
      lateral P (fst (split_axis hv (length (data x)))) = Inr l \<and>
      add P u l = Inr g \<and>
      lstm P (fst (split_axis cv (length (data x)))) g = Inr (c_head, h_new) \<and>
      take (length (data x)) (data out) = data h_new \<and>
      drop (length (data x)) (data out) = drop (length (data x)) (data hv) \<and>
      data out = data h_new @ drop (length (data x)) (data hv) \<and>
      length (data out) = length (data hv) \<and>
      h s' = Some out"
proof -
  from step_returns [OF assms(6)] obtain c_new h_new where
    g: "gate P s x = Inr (c_new, h_new)" and
    s': "s' = s\<lparr>c := Some c_new, h := Some out\<rparr>" and
    out: "out = h_new\<lparr>data := data h_new @ drop (length (data x)) (h_rows s)\<rparr>"
    by blast
  from g obtain u l gi where
    u: "upward P x = Inr u" and
    l: "lateral P (fst (split_axis hv (length (data x)))) = Inr l" and
    a: "add P u l = Inr gi" and
    act: "lstm P cv gi = Inr (c_new, h_new)"
    using assms(3,4,5)
    by (auto simp: gate_def lstm_in_split cell_in_set split: sum.splits)
  have "length (data gi) = length (data x)"
  proof -
    have "lstm_in P s x = Inr (gi, Some (snd (split_axis hv (length (data x)))))"
      using assms(3,5) u l a by (simp add: lstm_in_split)
    with assms(1) show ?thesis by (rule lstm_in_rows)
  qed
  moreover from assms(2)
  have "map_sum id snd (lstm P (fst (split_axis cv (length (data gi)))) gi) =
      map_sum id snd (lstm P cv gi)"
    by (simp add: gate_reads_head_def)
  ultimately have "map_sum id snd (lstm P (fst (split_axis cv (length (data x)))) gi) = Inr h_new"
    using act by simp
  then obtain c_head where
    head: "lstm P (fst (split_axis cv (length (data x)))) gi = Inr (c_head, h_new)"
    by (cases "lstm P (fst (split_axis cv (length (data x)))) gi") auto
  from gate_rows [OF assms(1) g] have rows: "length (data h_new) = length (data x)" .
  have d: "data out = data h_new @ drop (length (data x)) (data hv)"
    using out assms(3) by (simp add: h_rows_def)
  have "take (length (data x)) (data out) = data h_new"
    and "drop (length (data x)) (data out) = drop (length (data x)) (data hv)"
    and "length (data out) = length (data hv)"
    using d rows assms(5) by simp_all
  with u l a head d s' show ?thesis by simp
qed

theorem shrinking_batch_output_witness:
  "step (toy 1 1) link3 (batch1 [5, 6]) =
     (Inr \<lparr>data = [[16], [24], [6]], dtype = Float32, arr = Numpy\<rparr>,
      snd (step (toy 1 1) link3 (batch1 [5, 6]))) \<and>
   drop (length (data (batch1 [5, 6])))
     (data \<lparr>data = [[16::int], [24], [6]], dtype = Float32, arr = Numpy\<rparr>) =
   drop (length (data (batch1 [5, 6])))
     (data \<lparr>data = [[2::int], [4], [6]], dtype = Float32, arr = Numpy\<rparr>)"
proof -
  have ro: "gate_reads_head (lstm (toy 1 1))"
    using toy_reads_head by (simp add: toy_def toy_on_def)
  have hv: "h link3 = Some \<lparr>data = [[2], [4], [6]], dtype = Float32, arr = Numpy\<rparr>"
    by (simp add: link3_eq)
  have cv: "c link3 = Some \<lparr>data = [[1], [2], [3]], dtype = Float32, arr = Numpy\<rparr>"
    by (simp add: link3_eq)
  have len: "length (data (batch1 [5, 6])) <
      length (data \<lparr>data = [[2::int], [4], [6]], dtype = Float32, arr = Numpy\<rparr>)"
    by (simp add: batch1_def)
  have st: "step (toy 1 1) link3 (batch1 [5, 6]) =
      (Inr \<lparr>data = [[16], [24], [6]], dtype = Float32, arr = Numpy\<rparr>,
       snd (step (toy 1 1) link3 (batch1 [5, 6])))"
    by (simp add: link3_eq toy_eval)
  from shrinking_batch_output [OF toy_shapes_ok ro hv cv len st] st show ?thesis by blast
qed

section \<open>Sequences of calls\<close>

lemma exec_append: "exec P s (xs @ ys) = exec P (exec P s xs) ys"
  by (induction xs arbitrary: s) simp_all

lemma exec_take_Suc:
  assumes "k < length xs"
  shows "exec P s (take (Suc k) xs) = snd (step P (exec P s (take k xs)) (xs ! k))"
  using assms by (simp add: take_Suc_conv_app_nth exec_append)

lemma length_outputs: "length (outputs P s xs) = length xs"
  by (induction xs arbitrary: s) simp_all

lemma outputs_nth:
  "k < length xs \<Longrightarrow> outputs P s xs ! k = fst (step P (exec P s (take k xs)) (xs ! k))"
proof (induction xs arbitrary: s k)
  case Nil
  then show ?case by simp
next
  case (Cons x xs)
  show ?case
  proof (cases k)
    case 0
    then show ?thesis by simp
  next
    case (Suc n)
    with Cons.prems have "n < length xs" by simp
    from Cons.IH [OF this] Suc show ?thesis by simp
  qed
qed

lemma returned_call:
  assumes "all_returned P s xs" and "k < length xs"
  shows "\<exists>out. step P (exec P s (take k xs)) (xs ! k) =
           (Inr out, exec P s (take (Suc k) xs))"
proof -
  from assms have "\<not> isl (outputs P s xs ! k)"
    by (simp add: all_returned_def list_all_length length_outputs)
  then have "\<not> isl (fst (step P (exec P s (take k xs)) (xs ! k)))"
    using assms(2) by (simp add: outputs_nth)
  then obtain out where "fst (step P (exec P s (take k xs)) (xs ! k)) = Inr out"
    by (cases "fst (step P (exec P s (take k xs)) (xs ! k))") auto
  then show ?thesis
    using assms(2) by (cases "step P (exec P s (take k xs)) (xs ! k)") (auto simp: exec_take_Suc)
qed

lemma stored_rows_rec:
  assumes "shapes_ok P" and "all_returned P s xs" and "k < length xs"
  shows "stored_rows P s xs k =
           fresh_rows P s xs k @ drop (batch_size xs k) (h_rows (exec P s (take k xs)))"
    and "length (fresh_rows P s xs k) = batch_size xs k"
proof -
  from returned_call [OF assms(2,3)] obtain out where
    st: "step P (exec P s (take k xs)) (xs ! k) = (Inr out, exec P s (take (Suc k) xs))"
    by blast
  from step_returns [OF st] obtain c_new h_new where
    g: "gate P (exec P s (take k xs)) (xs ! k) = Inr (c_new, h_new)" and
    s': "exec P s (take (Suc k) xs) =
         (exec P s (take k xs))\<lparr>c := Some c_new, h := Some out\<rparr>" and
    out: "out = h_new\<lparr>data := data h_new @
           drop (length (data (xs ! k))) (h_rows (exec P s (take k xs)))\<rparr>"
    by blast
  have fr: "fresh_rows P s xs k = data h_new"
    using g by (simp add: fresh_rows_def)
  from gate_rows [OF assms(1) g] fr
  show "length (fresh_rows P s xs k) = batch_size xs k"
    by (simp add: batch_size_def)
  have "stored_rows P s xs k = data out"
    by (simp add: stored_rows_def s' h_rows_def)
  with out fr show "stored_rows P s xs k =
      fresh_rows P s xs k @ drop (batch_size xs k) (h_rows (exec P s (take k xs)))"
    by (simp add: batch_size_def)
qed

lemma batch_size_mono:
  assumes "sorted_wrt (\<ge>) (map (\<lambda>x. length (data x)) xs)"
    and "i \<le> k" and "k < length xs"
  shows "batch_size xs k \<le> batch_size xs i"
proof (cases "i = k")
  case True
  then show ?thesis by simp
next
  case False
  with assms(2) have "i < k" by simp
  with assms(1,3) have "map (\<lambda>x. length (data x)) xs ! i \<ge> map (\<lambda>x. length (data x)) xs ! k"
    by (simp add: sorted_wrt_iff_nth_less)
  with assms(2,3) show ?thesis by (simp add: batch_size_def)
qed

lemma stored_rows_prev:
  "h_rows (exec P s (take (Suc k) xs)) = stored_rows P s xs k"
  by (simp add: stored_rows_def)

lemma stored_rows_length:
  assumes "shapes_ok P" and "all_returned P s xs"
    and "sorted_wrt (\<ge>) (map (\<lambda>x. length (data x)) xs)"
    and "h s = None" and "k < length xs"
  shows "length (stored_rows P s xs k) = batch_size xs 0"
  using assms(5)
proof (induction k)
  case 0
  from stored_rows_rec [OF assms(1,2) 0] assms(4) show ?case
    by (simp add: h_rows_def)
next
  case (Suc k)
  then have k: "k < length xs" by simp
  have le: "batch_size xs (Suc k) \<le> batch_size xs 0"
    using assms(3) Suc.prems by (intro batch_size_mono) simp_all
  from stored_rows_rec [OF assms(1,2) Suc.prems] Suc.IH [OF k] le
  show ?case by (simp add: stored_rows_prev)
qed

lemma stored_rows_fresh:
  assumes "shapes_ok P" and "all_returned P s xs" and "k < length xs"
    and "j < batch_size xs k"
  shows "stored_rows P s xs k ! j = fresh_rows P s xs k ! j"
  using stored_rows_rec [OF assms(1,2,3)] assms(4) by (simp add: nth_append)

lemma stored_rows_kept:
  assumes "shapes_ok P" and "all_returned P s xs"
    and "sorted_wrt (\<ge>) (map (\<lambda>x. length (data x)) xs)"
    and "h s = None" and "Suc k < length xs"
    and "batch_size xs (Suc k) \<le> j"
  shows "stored_rows P s xs (Suc k) ! j = stored_rows P s xs k ! j"
proof -
  have k: "k < length xs" using assms(5) by simp
  have len: "length (stored_rows P s xs k) = batch_size xs 0"
    using assms(1,2,3,4) k by (rule stored_rows_length)
  have le: "batch_size xs (Suc k) \<le> batch_size xs 0"
    using assms(3,5) by (intro batch_size_mono) simp_all
  from stored_rows_rec [OF assms(1,2,5)]
  have eq: "stored_rows P s xs (Suc k) =
      fresh_rows P s xs (Suc k) @ drop (batch_size xs (Suc k)) (stored_rows P s xs k)"
    and fl: "length (fresh_rows P s xs (Suc k)) = batch_size xs (Suc k)"
    by (simp_all add: stored_rows_prev)
  have "stored_rows P s xs (Suc k) ! j =
      drop (batch_size xs (Suc k)) (stored_rows P s xs k) ! (j - batch_size xs (Suc k))"
    using eq fl assms(6) by (simp add: nth_append)
  also have "\<dots> = stored_rows P s xs k ! j"
    using len le assms(6) by simp
  finally show ?thesis .
qed

lemma stored_rows_frozen:
  assumes "shapes_ok P" and "all_returned P s xs"
    and "sorted_wrt (\<ge>) (map (\<lambda>x. length (data x)) xs)"
    and "h s = None" and "k < length xs" and "m \<le> k"
    and "\<forall>i. m < i \<and> i \<le> k \<longrightarrow> batch_size xs i \<le> j"
  shows "stored_rows P s xs k ! j = stored_rows P s xs m ! j"
  using assms(5,6,7)
proof (induction k)
  case 0
  then show ?case by simp
next
  case (Suc k)
  show ?case
  proof (cases "m = Suc k")
    case True
    then show ?thesis by simp
  next
    case False
    with Suc.prems have mk: "m \<le> k" and k: "k < length xs" by simp_all
    from Suc.prems mk have b: "batch_size xs (Suc k) \<le> j" by simp
    have "stored_rows P s xs (Suc k) ! j = stored_rows P s xs k ! j"
      using assms(1,2,3,4) Suc.prems(1) b by (rule stored_rows_kept)
    also have "\<dots> = stored_rows P s xs m ! j"
      using k mk Suc.prems(3) by (intro Suc.IH) simp_all
    finally show ?thesis .
  qed
qed

lemma last_larger_batch:
  assumes "batch_size xs k \<le> j" and "j < batch_size xs 0"
  shows "\<exists>m<k. j < batch_size xs m \<and> (\<forall>i. m < i \<and> i \<le> k \<longrightarrow> batch_size xs i \<le> j)"
  using assms(1)
proof (induction k)
  case 0
  with assms(2) show ?case by simp
next
  case (Suc k)
  show ?case
  proof (cases "j < batch_size xs k")
    case True
    with Suc.prems have "j < batch_size xs k \<and>
        (\<forall>i. k < i \<and> i \<le> Suc k \<longrightarrow> batch_size xs i \<le> j)"
      by (auto simp: le_Suc_eq)
    then show ?thesis by blast
  next
    case False
    then have "batch_size xs k \<le> j" by simp
    from Suc.IH [OF this] obtain m where m: "m < k" "j < batch_size xs m"
      "\<forall>i. m < i \<and> i \<le> k \<longrightarrow> batch_size xs i \<le> j"
      by blast
    with Suc.prems have "\<forall>i. m < i \<and> i \<le> Suc k \<longrightarrow> batch_size xs i \<le> j"
      by (auto simp: le_Suc_eq)
    with m show ?thesis by (intro exI [of _ m]) simp
  qed
qed

lemma run3_returned: "all_returned (toy 1 1) (LSTM 1 1) run3"
  by (simp add: all_returned_def run3_def toy_eval)

text \<open>
  Claim C9. In a run of calls that all return, from a link whose \<open>h\<close> is \<^verbatim>\<open>None\<close> and
  with batch sizes that never grow, the stored output keeps the rows of the first batch,
  and after each call its row \<open>j\<close> is the row just computed if \<open>j\<close> is below the batch
  size of that call, and otherwise the row \<open>j\<close> that was stored, freshly computed, by
  the last call whose batch size exceeded \<open>j\<close>: the outputs of finished sequences stay
  as they were through all later calls. The pre-activation and the new output of each
  call are taken to have the rows of its input batch.
\<close>

theorem frozen_rows:
  assumes "shapes_ok P" and "all_returned P s xs"
    and "sorted_wrt (\<ge>) (map (\<lambda>x. length (data x)) xs)"
    and "h s = None" and "k < length xs" and "j < batch_size xs 0"
  shows "length (stored_rows P s xs k) = batch_size xs 0
    \<and> (j < batch_size xs k \<longrightarrow> stored_rows P s xs k ! j = fresh_rows P s xs k ! j)
    \<and> (batch_size xs k \<le> j \<longrightarrow>
         (\<exists>m<k. j < batch_size xs m \<and>
                (\<forall>i. m < i \<and> i \<le> k \<longrightarrow> batch_size xs i \<le> j) \<and>
                stored_rows P s xs k ! j = stored_rows P s xs m ! j \<and>
                stored_rows P s xs m ! j = fresh_rows P s xs m ! j))"
proof -
  have len: "length (stored_rows P s xs k) = batch_size xs 0"
    using assms(1-5) by (rule stored_rows_length)
  have fresh: "j < batch_size xs k \<longrightarrow> stored_rows P s xs k ! j = fresh_rows P s xs k ! j"
    using stored_rows_fresh [OF assms(1,2,5)] by blast
  have kept: "\<exists>m<k. j < batch_size xs m \<and>
        (\<forall>i. m < i \<and> i \<le> k \<longrightarrow> batch_size xs i \<le> j) \<and>
        stored_rows P s xs k ! j = stored_rows P s xs m ! j \<and>
        stored_rows P s xs m ! j = fresh_rows P s xs m ! j"
    if le: "batch_size xs k \<le> j"
  proof -
    from last_larger_batch [OF le assms(6)] obtain m where
      m: "m < k" "j < batch_size xs m"
      "\<forall>i. m < i \<and> i \<le> k \<longrightarrow> batch_size xs i \<le> j"
      by blast
    from m(1) assms(5) have ml: "m < length xs" and mk: "m \<le> k" by simp_all
    have "stored_rows P s xs k ! j = stored_rows P s xs m ! j"
      using assms(1-5) mk m(3) by (rule stored_rows_frozen)
    moreover have "stored_rows P s xs m ! j = fresh_rows P s xs m ! j"
      using assms(1,2) ml m(2) by (rule stored_rows_fresh)
    ultimately show ?thesis using m by blast
  qed
  from len fresh kept show ?thesis by blast
qed

theorem frozen_rows_witness:
  "length (stored_rows (toy 1 1) (LSTM 1 1) run3 2) = batch_size run3 0 \<and>
   (\<exists>m<2. stored_rows (toy 1 1) (LSTM 1 1) run3 2 ! 2 =
           fresh_rows (toy 1 1) (LSTM 1 1) run3 m ! 2) \<and>
   stored_rows (toy 1 1) (LSTM 1 1) run3 2 = [[62], [24], [6]] \<and>
   fresh_rows (toy 1 1) (LSTM 1 1) run3 0 = [[2], [4], [6]] \<and>
   fresh_rows (toy 1 1) (LSTM 1 1) run3 1 = [[16], [24]] \<and>
   fresh_rows (toy 1 1) (LSTM 1 1) run3 2 = [[62]]"
proof -
  have v: "stored_rows (toy 1 1) (LSTM 1 1) run3 2 = [[62], [24], [6]]"
    "fresh_rows (toy 1 1) (LSTM 1 1) run3 0 = [[2], [4], [6]]"
    "fresh_rows (toy 1 1) (LSTM 1 1) run3 1 = [[16], [24]]"
    "fresh_rows (toy 1 1) (LSTM 1 1) run3 2 = [[62]]"
    by (simp_all add: stored_rows_def fresh_rows_def h_rows_def run3_def toy_eval)
  have so: "sorted_wrt (\<ge>) (map (\<lambda>x. length (data x)) run3)"
    by (simp add: run3_def batch1_def)
  have hn: "h (LSTM 1 1 :: int lstm_link) = None"
    by (simp add: LSTM_def reset_state_def)
  have k: "2 < length run3" by (simp add: run3_def)
  have j: "2 < batch_size run3 0" by (simp add: run3_def batch_size_def batch1_def)
  have le: "batch_size run3 2 \<le> 2" by (simp add: run3_def batch_size_def batch1_def)
  from frozen_rows [OF toy_shapes_ok run3_returned so hn k j] le
  have "length (stored_rows (toy 1 1) (LSTM 1 1) run3 2) = batch_size run3 0 \<and>
     (\<exists>m<2. stored_rows (toy 1 1) (LSTM 1 1) run3 2 ! 2 =
           fresh_rows (toy 1 1) (LSTM 1 1) run3 m ! 2)"
    by metis
  with v show ?thesis by simp
qed

end
